theory Spec2Isabelle
  imports
    Complex_Main
    "HOL-Library.Multiset"
    "HOL-Library.Sublist"
    "HOL-Library.Char_ord"
    "HOL-Library.List_Lexorder"
    "HOL-Library.Product_Lexorder"
begin

section \<open>WWV log analysis (tools/wwv\_analyze.py)\<close>

text \<open>
  A shallow embedding of \<^verbatim>\<open>wwv_analyze.py\<close>. Conventions of the model:
  \<^item> a Python \<^verbatim>\<open>str\<close> is a \<^typ>\<open>string\<close>, each character a code point below 256;
    strings are compared as Python compares them, character by character and a proper
    prefix first (\<open>List_Lexorder\<close> over \<open>Char_ord\<close>);
  \<^item> a Python \<^verbatim>\<open>float\<close> is the real number it denotes; NaN and the infinities are
    outside the model. Comparisons of floats are exact. The sums and quotients that are
    only printed are taken exactly. The one subtraction whose result decides something,
    \<^verbatim>\<open>abs(t_time - m_time)\<close> in the Correlation Matcher, is rounded by the machine: it
    is a parameter \<open>adiff\<close> of the matcher, about which nothing is assumed;
  \<^item> the builtin \<^verbatim>\<open>float()\<close> is a parameter \<open>flt\<close> of every function that calls it:
    \<open>flt s = Some x\<close> when \<^verbatim>\<open>float(s)\<close> returns \<open>x\<close>, \<open>None\<close> when it raises
    \<^verbatim>\<open>ValueError\<close>;
  \<^item> an exception is a value of type \<open>error\<close>, and a function that can raise returns
    \<open>error + 'a\<close>;
  \<^item> a \<^verbatim>\<open>dict\<close> whose iteration order is observed is an association list in insertion
    order.
\<close>

subsection \<open>String helpers\<close>

definition startswith :: "string \<Rightarrow> string \<Rightarrow> bool" where
  "startswith s p = prefix p s"

definition endswith :: "string \<Rightarrow> string \<Rightarrow> bool" where
  "endswith s p = suffix p s"

text \<open>\<^verbatim>\<open>p in s\<close> on strings: \<open>p\<close> occurs in \<open>s\<close> as a contiguous run.\<close>

definition contains :: "string \<Rightarrow> string \<Rightarrow> bool" where
  "contains p s = sublist p s"

subsection \<open>Log Locator (print\_report, lines 184-215)\<close>

datatype category = Sync | Ticks | Markers | Subcarrier | Channel

text \<open>
  \<^verbatim>\<open>os.path.join(base_path, f)\<close> for a name \<open>f\<close> returned by \<^verbatim>\<open>os.listdir\<close>
  (posixpath: an absolute second component replaces the first; otherwise a separator is
  added unless the first component is empty or already ends with one).
\<close>

definition path_join :: "string \<Rightarrow> string \<Rightarrow> string" where
  "path_join base f =
     (if startswith f ''/'' then f
      else if base = [] \<or> endswith base ''/'' then base @ f
      else base @ ''/'' @ f)"

text \<open>
  The scan of the directory. The listing gives each name with the modification time that
  \<^verbatim>\<open>os.path.getmtime\<close> returns for it; \<open>cands\<close> is the \<^verbatim>\<open>defaultdict(list)\<close>
  \<^verbatim>\<open>candidates\<close>.
\<close>

fun scan_dir ::
  "string \<Rightarrow> (string \<times> real) list \<Rightarrow> (category \<Rightarrow> (real \<times> string) list)
     \<Rightarrow> (category \<Rightarrow> (real \<times> string) list)" where
  "scan_dir base [] cands = cands"
| "scan_dir base ((f, mtime) # rest) cands =
     (if \<not> endswith f ''.csv'' then scan_dir base rest cands
      else
        let full_path = path_join base f in
        if contains ''sync'' f then
          scan_dir base rest (cands (Sync := cands Sync @ [(mtime, full_path)]))
        else if contains ''ticks'' f then
          scan_dir base rest (cands (Ticks := cands Ticks @ [(mtime, full_path)]))
        else if contains ''markers'' f then
          scan_dir base rest (cands (Markers := cands Markers @ [(mtime, full_path)]))
        else if contains ''subcarrier'' f then
          scan_dir base rest (cands (Subcarrier := cands Subcarrier @ [(mtime, full_path)]))
        else if contains ''channel'' f then
          scan_dir base rest (cands (Channel := cands Channel @ [(mtime, full_path)]))
        else scan_dir base rest cands)"

definition candidates :: "string \<Rightarrow> (string \<times> real) list \<Rightarrow> category \<Rightarrow> (real \<times> string) list" where
  "candidates base listing = scan_dir base listing (\<lambda>key. [])"

text \<open>
  \<^verbatim>\<open>candidates[key].sort(reverse=True)\<close>: tuples compare by modification time first and
  by path second, and the list ends up in descending order.
\<close>

definition sort_reverse :: "(real \<times> string) list \<Rightarrow> (real \<times> string) list" where
  "sort_reverse c = rev (sort c)"

text \<open>\<^verbatim>\<open>files[key]\<close>: \<open>None\<close> when the category has no candidate, else the path of the
  first tuple of the sorted list.\<close>

definition find_files :: "string \<Rightarrow> (string \<times> real) list \<Rightarrow> category \<Rightarrow> string option" where
  "find_files base listing key =
     (case sort_reverse (candidates base listing key) of
        [] \<Rightarrow> None
      | (mtime, full_path) # others \<Rightarrow> Some full_path)"

subsection \<open>Exceptions, rows and files\<close>

datatype error = KeyError string | ValueError string

text \<open>
  A row as \<^verbatim>\<open>csv.DictReader\<close> yields it: column name to field text (a row with
  fewer fields than the header, whose missing fields Python sets to \<^verbatim>\<open>None\<close>, is outside
  the model). A log file is what the two readers of the source see of it: its text lines
  (for \<^verbatim>\<open>parse_header\<close>) and the rows that \<^verbatim>\<open>csv.DictReader\<close> yields from the lines
  that do not start with \<^verbatim>\<open>#\<close>. The file system maps a path to the file there, if any;
  \<^verbatim>\<open>os.path.exists\<close> is false where it maps to nothing.
\<close>

type_synonym row = "string \<rightharpoonup> string"

record log_file =
  text_lines :: "string list"
  dict_rows :: "row list"

type_synonym filesystem = "string \<rightharpoonup> log_file"

text \<open>Sequencing of two steps that can raise: the second runs on the result of the first.\<close>

definition and_then :: "error + 'a \<Rightarrow> ('a \<Rightarrow> error + 'b) \<Rightarrow> error + 'b" where
  "and_then r f = (case r of Inl e \<Rightarrow> Inl e | Inr a \<Rightarrow> f a)"

text \<open>\<^verbatim>\<open>row[k]\<close> raises \<^verbatim>\<open>KeyError\<close> when the column is missing.\<close>

definition col :: "row \<Rightarrow> string \<Rightarrow> error + string" where
  "col r k = (case r k of None \<Rightarrow> Inl (KeyError k) | Some v \<Rightarrow> Inr v)"

definition to_float :: "(string \<Rightarrow> real option) \<Rightarrow> string \<Rightarrow> error + real" where
  "to_float flt s = (case flt s of None \<Rightarrow> Inl (ValueError s) | Some x \<Rightarrow> Inr x)"

text \<open>\<^verbatim>\<open>float(row[k])\<close>: the lookup first, then the conversion.\<close>

definition float_col :: "(string \<Rightarrow> real option) \<Rightarrow> row \<Rightarrow> string \<Rightarrow> error + real" where
  "float_col flt r k = and_then (col r k) (to_float flt)"

text \<open>
  \<^verbatim>\<open>d[k] += 1\<close> on a \<^verbatim>\<open>defaultdict(int)\<close>: a known key is incremented in place, a new
  key is appended with count 1 (a Python dict iterates in insertion order).
\<close>

fun bump :: "(string \<times> nat) list \<Rightarrow> string \<Rightarrow> (string \<times> nat) list" where
  "bump [] k = [(k, 1)]"
| "bump ((k', n) # d) k = (if k' = k then (k', n + 1) # d else (k', n) # bump d k)"

subsection \<open>Header Reader (parse\_header)\<close>

record header_info =
  version :: string
  started :: string

text \<open>
  The characters that \<^verbatim>\<open>str.strip()\<close> removes, among the code points below 256: those
  for which \<^verbatim>\<open>str.isspace()\<close> holds, U+0085 and U+00A0 included.
\<close>

definition is_space :: "char \<Rightarrow> bool" where
  "is_space c = (c \<in> set [CHR 0x09, CHR 0x0A, CHR 0x0B, CHR 0x0C, CHR 0x0D,
                           CHR 0x1C, CHR 0x1D, CHR 0x1E, CHR 0x1F, CHR 0x20,
                           CHR 0x85, CHR 0xA0])"

definition strip :: "string \<Rightarrow> string" where
  "strip s = rev (dropWhile is_space (rev (dropWhile is_space s)))"

text \<open>\<^verbatim>\<open>line.split(' v')\<close>: \<open>acc\<close> holds the current part, reversed.\<close>

fun split_v :: "string \<Rightarrow> string \<Rightarrow> string list" where
  "split_v acc [] = [rev acc]"
| "split_v acc [c] = [rev (c # acc)]"
| "split_v acc (c # d # cs) =
     (if c = CHR '' '' \<and> d = CHR ''v'' then rev acc # split_v [] cs
      else split_v (c # acc) (d # cs))"

text \<open>\<^verbatim>\<open>line.replace('# Started:', '')\<close>: every occurrence is removed, left to right.\<close>

fun remove_started :: "string \<Rightarrow> string" where
  "remove_started [] = []"
| "remove_started (c # cs) =
     (if prefix ''# Started:'' (c # cs) then remove_started (drop 9 cs)
      else c # remove_started cs)"

fun parse_header_loop :: "header_info \<Rightarrow> string list \<Rightarrow> header_info" where
  "parse_header_loop info [] = info"
| "parse_header_loop info (line # rest) =
     (if startswith line ''# Phoenix SDR'' then
        (let parts = split_v [] line in
         if length parts > 1
         then parse_header_loop (info\<lparr>version := ''v'' @ strip (parts ! 1)\<rparr>) rest
         else parse_header_loop info rest)
      else if startswith line ''# Started:'' then
        parse_header_loop (info\<lparr>started := strip (remove_started line)\<rparr>) rest
      else if \<not> startswith line ''#'' then info
      else parse_header_loop info rest)"

definition parse_header :: "log_file \<Rightarrow> header_info" where
  "parse_header file =
     parse_header_loop \<lparr>version = ''unknown'', started = ''unknown''\<rparr> (text_lines file)"

subsection \<open>Sync Analyzer (analyze\_sync)\<close>

text \<open>
  The dictionary that \<^verbatim>\<open>analyze_sync\<close> returns. The early return for a log without rows
  builds it without the keys \<^verbatim>\<open>first_locked\<close>, \<^verbatim>\<open>avg_delta_ms\<close> and \<^verbatim>\<open>missed\<close>:
  for these three fields \<open>None\<close> says that the key is absent. The value under
  \<^verbatim>\<open>first_locked\<close> is itself \<^verbatim>\<open>None\<close> or a row number.
\<close>

record sync_stats =
  sync_info :: header_info
  sync_count :: nat
  sync_states :: "(string \<times> nat) list"
  sync_intervals :: "real list"
  first_locked :: "nat option option"
  avg_delta_ms :: "real option"
  missed :: "nat option"

text \<open>Lines 42-44: every row is kept, and its state is counted.\<close>

fun count_states :: "row list \<Rightarrow> (string \<times> nat) list \<Rightarrow> error + (string \<times> nat) list" where
  "count_states [] states = Inr states"
| "count_states (r # rest) states =
     (case col r ''state'' of
        Inl e \<Rightarrow> Inl e
      | Inr s \<Rightarrow> count_states rest (bump states s))"

text \<open>Lines 49-53: the positive intervals, an unparsable field raising.\<close>

fun positive_intervals ::
  "(string \<Rightarrow> real option) \<Rightarrow> row list \<Rightarrow> real list \<Rightarrow> error + real list" where
  "positive_intervals flt [] intervals = Inr intervals"
| "positive_intervals flt (m # rest) intervals =
     (case float_col flt m ''interval_sec'' of
        Inl e \<Rightarrow> Inl e
      | Inr interval \<Rightarrow>
          if interval > 0 then positive_intervals flt rest (intervals @ [interval])
          else positive_intervals flt rest intervals)"

text \<open>Line 60: \<^verbatim>\<open>next((i+1 for i, m in enumerate(markers) if m['state'] == 'LOCKED'), None)\<close>.\<close>

fun first_locked_from :: "nat \<Rightarrow> row list \<Rightarrow> error + nat option" where
  "first_locked_from i [] = Inr None"
| "first_locked_from i (m # rest) =
     (case col m ''state'' of
        Inl e \<Rightarrow> Inl e
      | Inr s \<Rightarrow> if s = ''LOCKED'' then Inr (Some (i + 1)) else first_locked_from (i + 1) rest)"

text \<open>Line 61: the values \<^verbatim>\<open>float(m['delta_ms'])\<close> that are summed.\<close>

fun delta_values :: "(string \<Rightarrow> real option) \<Rightarrow> row list \<Rightarrow> error + real list" where
  "delta_values flt [] = Inr []"
| "delta_values flt (m # rest) =
     and_then (float_col flt m ''delta_ms'') (\<lambda>d.
     and_then (delta_values flt rest) (\<lambda>ds. Inr (d # ds)))"

definition analyze_sync ::
  "(string \<Rightarrow> real option) \<Rightarrow> filesystem \<Rightarrow> string \<Rightarrow> error + sync_stats option" where
  "analyze_sync flt fs filepath =
     (case fs filepath of
        None \<Rightarrow> Inr None
      | Some file \<Rightarrow>
          (let info = parse_header file; markers = dict_rows file in
           and_then (count_states markers []) (\<lambda>states.
             if markers = [] then
               Inr (Some \<lparr>sync_info = info, sync_count = 0, sync_states = [],
                          sync_intervals = [], first_locked = None, avg_delta_ms = None,
                          missed = None\<rparr>)
             else
               and_then (positive_intervals flt markers []) (\<lambda>intervals.
               and_then (first_locked_from 0 markers) (\<lambda>locked.
               and_then (delta_values flt markers) (\<lambda>deltas.
                 Inr (Some \<lparr>sync_info = info, sync_count = length markers,
                            sync_states = states, sync_intervals = intervals,
                            first_locked = Some locked,
                            avg_delta_ms = Some (sum_list deltas / real (length markers)),
                            missed = Some (length (filter (\<lambda>i. i > 90) intervals))\<rparr>)))))))"

subsection \<open>Tick Analyzer (analyze\_ticks)\<close>

text \<open>
  The early return for a log without tick rows leaves out \<^verbatim>\<open>good_interval_pct\<close> and
  \<^verbatim>\<open>mean_interval_ms\<close> (\<open>None\<close>: key absent) and gives an empty \<^verbatim>\<open>markers\<close> list.
\<close>

record tick_stats =
  tick_info :: header_info
  tick_count :: nat
  marker_count :: nat
  good_interval_pct :: "real option"
  mean_interval_ms :: "real option"
  tick_markers :: "(string \<times> real \<times> real) list"

text \<open>Lines 74-80: the rows of the tick log, split into \<open>(ticks, markers)\<close>.\<close>

fun split_ticks :: "row list \<Rightarrow> row list \<times> row list \<Rightarrow> error + row list \<times> row list" where
  "split_ticks [] (ticks, markers) = Inr (ticks, markers)"
| "split_ticks (r # rest) (ticks, markers) =
     (case col r ''tick_num'' of
        Inl e \<Rightarrow> Inl e
      | Inr tick_num \<Rightarrow>
          if startswith tick_num ''M'' then split_ticks rest (ticks, markers @ [r])
          else if tick_num \<notin> set [''META'', ''GAIN''] then split_ticks rest (ticks @ [r], markers)
          else split_ticks rest (ticks, markers))"

text \<open>Lines 85-92: the valid intervals; whatever the \<^verbatim>\<open>try\<close> body raises is passed over.\<close>

fun valid_intervals ::
  "(string \<Rightarrow> real option) \<Rightarrow> row list \<Rightarrow> real list \<Rightarrow> real list" where
  "valid_intervals flt [] intervals = intervals"
| "valid_intervals flt (t # rest) intervals =
     (case float_col flt t ''interval_ms'' of
        Inl e \<Rightarrow> valid_intervals flt rest intervals
      | Inr interval \<Rightarrow>
          if 500 < interval \<and> interval < 10000
          then valid_intervals flt rest (intervals @ [interval])
          else valid_intervals flt rest intervals)"

text \<open>Line 94.\<close>

definition good_intervals :: "real list \<Rightarrow> real list" where
  "good_intervals intervals = filter (\<lambda>i. 900 \<le> i \<and> i \<le> 1100) intervals"

text \<open>
  Lines 102 and 122: \<^verbatim>\<open>[(m[key], float(m['timestamp_ms']), float(m['duration_ms'])) for m in markers]\<close>.
\<close>

fun marker_tuples ::
  "(string \<Rightarrow> real option) \<Rightarrow> string \<Rightarrow> row list \<Rightarrow> error + (string \<times> real \<times> real) list" where
  "marker_tuples flt key [] = Inr []"
| "marker_tuples flt key (m # rest) =
     and_then (col m key) (\<lambda>name.
     and_then (float_col flt m ''timestamp_ms'') (\<lambda>timestamp.
     and_then (float_col flt m ''duration_ms'') (\<lambda>duration.
     and_then (marker_tuples flt key rest) (\<lambda>tuples.
       Inr ((name, timestamp, duration) # tuples)))))"

definition analyze_ticks ::
  "(string \<Rightarrow> real option) \<Rightarrow> filesystem \<Rightarrow> string \<Rightarrow> error + tick_stats option" where
  "analyze_ticks flt fs filepath =
     (case fs filepath of
        None \<Rightarrow> Inr None
      | Some file \<Rightarrow>
          (let info = parse_header file in
           and_then (split_ticks (dict_rows file) ([], [])) (\<lambda>(ticks, markers).
             if ticks = [] then
               Inr (Some \<lparr>tick_info = info, tick_count = 0, marker_count = length markers,
                          good_interval_pct = None, mean_interval_ms = None,
                          tick_markers = []\<rparr>)
             else
               (let intervals = valid_intervals flt ticks [];
                    good = good_intervals intervals
                in and_then (marker_tuples flt ''tick_num'' markers) (\<lambda>tuples.
                     Inr (Some \<lparr>tick_info = info, tick_count = length ticks,
                                marker_count = length markers,
                                good_interval_pct =
                                  Some (if intervals \<noteq> []
                                        then 100 * real (length good) / real (length intervals)
                                        else 0),
                                mean_interval_ms =
                                  Some (if intervals \<noteq> []
                                        then sum_list intervals / real (length intervals)
                                        else 0),
                                tick_markers = tuples\<rparr>))))))"

subsection \<open>Marker Analyzer (analyze\_markers)\<close>

record marker_stats =
  marker_info :: header_info
  mk_count :: nat
  mk_markers :: "(string \<times> real \<times> real) list"

text \<open>Lines 113-117.\<close>

fun keep_markers :: "row list \<Rightarrow> row list \<Rightarrow> error + row list" where
  "keep_markers [] markers = Inr markers"
| "keep_markers (r # rest) markers =
     (case col r ''marker_num'' of
        Inl e \<Rightarrow> Inl e
      | Inr marker_num \<Rightarrow>
          if startswith marker_num ''M'' then keep_markers rest (markers @ [r])
          else keep_markers rest markers)"

definition analyze_markers ::
  "(string \<Rightarrow> real option) \<Rightarrow> filesystem \<Rightarrow> string \<Rightarrow> error + marker_stats option" where
  "analyze_markers flt fs filepath =
     (case fs filepath of
        None \<Rightarrow> Inr None
      | Some file \<Rightarrow>
          (let info = parse_header file in
           and_then (keep_markers (dict_rows file) []) (\<lambda>markers.
           and_then (marker_tuples flt ''marker_num'' markers) (\<lambda>tuples.
             Inr (Some \<lparr>marker_info = info, mk_count = length markers,
                        mk_markers = tuples\<rparr>)))))"

subsection \<open>Subcarrier Analyzer (analyze\_subcarrier)\<close>

text \<open>
  \<^verbatim>\<open>by_expected\<close> is a \<^verbatim>\<open>defaultdict\<close> of \<^verbatim>\<open>{'total': 0, 'match': 0}\<close>: an association
  list from the expected label to \<open>(total, match)\<close>, in insertion order.
\<close>

fun bump_total :: "(string \<times> nat \<times> nat) list \<Rightarrow> string \<Rightarrow> (string \<times> nat \<times> nat) list" where
  "bump_total [] k = [(k, 1, 0)]"
| "bump_total ((k', t, m) # d) k =
     (if k' = k then (k', t + 1, m) # d else (k', t, m) # bump_total d k)"

fun bump_match :: "(string \<times> nat \<times> nat) list \<Rightarrow> string \<Rightarrow> (string \<times> nat \<times> nat) list" where
  "bump_match [] k = [(k, 0, 1)]"
| "bump_match ((k', t, m) # d) k =
     (if k' = k then (k', t, m + 1) # d else (k', t, m) # bump_match d k)"

record subcarrier_stats =
  sub_info :: header_info
  sub_total :: nat
  sub_matches :: nat
  match_pct :: real
  by_expected :: "(string \<times> nat \<times> nat) list"

text \<open>Lines 137-145; the state is \<open>(total', matches, by_exp)\<close>.\<close>

fun count_matches ::
  "row list \<Rightarrow> nat \<times> nat \<times> (string \<times> nat \<times> nat) list
     \<Rightarrow> error + nat \<times> nat \<times> (string \<times> nat \<times> nat) list" where
  "count_matches [] (total', matches, by_exp) = Inr (total', matches, by_exp)"
| "count_matches (r # rest) (total', matches, by_exp) =
     and_then (col r ''expected'') (\<lambda>expected.
     and_then (col r ''match'') (\<lambda>match.
       if match = ''YES''
       then count_matches rest
              (total' + 1, matches + 1, bump_match (bump_total by_exp expected) expected)
       else count_matches rest (total' + 1, matches, bump_total by_exp expected)))"

definition analyze_subcarrier :: "filesystem \<Rightarrow> string \<Rightarrow> error + subcarrier_stats option" where
  "analyze_subcarrier fs filepath =
     (case fs filepath of
        None \<Rightarrow> Inr None
      | Some file \<Rightarrow>
          (let info = parse_header file in
           and_then (count_matches (dict_rows file) (0, 0, [])) (\<lambda>(total', matches, by_exp).
             Inr (Some \<lparr>sub_info = info, sub_total = total', sub_matches = matches,
                        match_pct = (if total' \<noteq> 0 then 100 * real matches / real total' else 0),
                        by_expected = by_exp\<rparr>))))"

subsection \<open>Channel Analyzer (analyze\_channel)\<close>

record channel_stats =
  channel_info :: header_info
  quality :: "(string \<times> nat) list"
  snr_min :: real
  snr_max :: real
  snr_avg :: real

text \<open>
  Lines 166-171. Both statements are inside the \<^verbatim>\<open>try\<close>: when the first raises nothing
  changes; when the second raises, the quality count has been incremented already.
\<close>

fun channel_rows ::
  "(string \<Rightarrow> real option) \<Rightarrow> row list \<Rightarrow> (string \<times> nat) list \<times> real list
     \<Rightarrow> (string \<times> nat) list \<times> real list" where
  "channel_rows flt [] (quality_counts, snr_values) = (quality_counts, snr_values)"
| "channel_rows flt (r # rest) (quality_counts, snr_values) =
     (case col r ''quality'' of
        Inl e \<Rightarrow> channel_rows flt rest (quality_counts, snr_values)
      | Inr q \<Rightarrow>
          (case float_col flt r ''snr_db'' of
             Inl e \<Rightarrow> channel_rows flt rest (bump quality_counts q, snr_values)
           | Inr snr \<Rightarrow> channel_rows flt rest (bump quality_counts q, snr_values @ [snr])))"

text \<open>\<^verbatim>\<open>min(xs)\<close> and \<^verbatim>\<open>max(xs)\<close> of a list that the caller has found non-empty.\<close>

fun list_min :: "real list \<Rightarrow> real" where
  "list_min [] = 0"
| "list_min (x # xs) = fold min xs x"

fun list_max :: "real list \<Rightarrow> real" where
  "list_max [] = 0"
| "list_max (x # xs) = fold max xs x"

definition analyze_channel ::
  "(string \<Rightarrow> real option) \<Rightarrow> filesystem \<Rightarrow> string \<Rightarrow> error + channel_stats option" where
  "analyze_channel flt fs filepath =
     (case fs filepath of
        None \<Rightarrow> Inr None
      | Some file \<Rightarrow>
          (let info = parse_header file;
               (quality_counts, snr_values) = channel_rows flt (dict_rows file) ([], [])
           in Inr (Some \<lparr>channel_info = info, quality = quality_counts,
                          snr_min = (if snr_values \<noteq> [] then list_min snr_values else 0),
                          snr_max = (if snr_values \<noteq> [] then list_max snr_values else 0),
                          snr_avg = (if snr_values \<noteq> []
                                     then sum_list snr_values / real (length snr_values)
                                     else 0)\<rparr>)))"

subsection \<open>Report lines\<close>

text \<open>
  One constructor for each \<^verbatim>\<open>print\<close> statement of \<^verbatim>\<open>print_report\<close>, carrying the values
  that its format string renders. The text of a line is a function of these values.
\<close>

datatype line =
    Rule
  | Title
  | SyncHeading string
  | SyncStarted string
  | SyncConfirmed nat
  | SyncStates "(string \<times> nat) list"
  | SyncFirstLocked nat
  | SyncAvgDelta real
  | SyncMissed nat
  | SyncRange real real
  | TickHeading
  | TicksDetected nat
  | TickMinuteMarkers nat
  | TickGoodPct real
  | TickMean real
  | MarkerHeading
  | MarkersDetected nat
  | CorrHeading
  | CorrMatched string string real
  | CorrNoMarker string real
  | CorrMore int
  | CorrSummary nat nat int
  | CorrSyncConfirmed nat
  | ChannelHeading
  | ChannelQuality "(string \<times> nat) list"
  | ChannelRange real real
  | ChannelAvg real
  | SubHeading
  | SubTotal nat
  | SubMatchRate real
  | SubBucket string nat nat real
  | Closing

subsection \<open>Correlation Matcher (print\_report, lines 252-298)\<close>

type_synonym event = "string \<times> real \<times> real"

definition timestamp :: "event \<Rightarrow> real" where
  "timestamp x = fst (snd x)"

text \<open>
  Lines 268-276, the scan of the enumerated marker list for one tick-marker at time
  \<open>t_time\<close>. The state is \<open>(best_match, best_delta)\<close>; \<open>best_match\<close> holds the index and
  the marker. \<open>adiff t_time m_time\<close> is the value of \<^verbatim>\<open>abs(t_time - m_time)\<close> in double
  arithmetic.
\<close>

fun scan_markers ::
  "(real \<Rightarrow> real \<Rightarrow> real) \<Rightarrow> real \<Rightarrow> nat set \<Rightarrow> (nat \<times> event) list \<Rightarrow> (nat \<times> event) option \<times> real
     \<Rightarrow> (nat \<times> event) option \<times> real" where
  "scan_markers adiff t_time used [] (best_match, best_delta) = (best_match, best_delta)"
| "scan_markers adiff t_time used ((i, (m_name, m_time, m_dur)) # rest) (best_match, best_delta) =
     (if i \<in> used then scan_markers adiff t_time used rest (best_match, best_delta)
      else
        let delta = adiff t_time m_time in
        if delta < best_delta
        then scan_markers adiff t_time used rest (Some (i, (m_name, m_time, m_dur)), delta)
        else scan_markers adiff t_time used rest (best_match, best_delta))"

text \<open>
  The variables of the loop over the tick-markers. \<open>outcomes\<close> is not a variable of the
  source: it records, for each tick-marker processed and in that order, the index that
  line 279 adds to \<^verbatim>\<open>used_markers\<close>, or \<open>None\<close> when line 285 counts the tick-marker
  as tick-only. Nothing reads it.
\<close>

record matcher =
  correlated :: nat
  tick_only :: nat
  used_markers :: "nat set"
  displayed :: nat
  shown :: "line list"
  outcomes :: "nat option list"

definition display_limit :: nat where
  "display_limit = 20"

text \<open>Lines 268-276 for one tick-marker: the scan starts from \<open>(None, 1500)\<close>.\<close>

definition find_best ::
  "(real \<Rightarrow> real \<Rightarrow> real) \<Rightarrow> event list \<Rightarrow> nat set \<Rightarrow> real \<Rightarrow> (nat \<times> event) option \<times> real" where
  "find_best adiff marker_list used t_time =
     scan_markers adiff t_time used (enumerate 0 marker_list) (None, 1500)"

text \<open>Lines 267-288, the body of the loop for one tick-marker.\<close>

definition match_step :: "(real \<Rightarrow> real \<Rightarrow> real) \<Rightarrow> event list \<Rightarrow> event \<Rightarrow> matcher \<Rightarrow> matcher" where
  "match_step adiff marker_list tick st =
     (case tick of (t_name, t_time, t_dur) \<Rightarrow>
        (case find_best adiff marker_list (used_markers st) t_time of
           (Some (i, (m_name, m_time, m_dur)), best_delta) \<Rightarrow>
             st\<lparr>used_markers := insert i (used_markers st),
                correlated := correlated st + 1,
                shown := (if displayed st < display_limit
                          then shown st @ [CorrMatched t_name m_name best_delta]
                          else shown st),
                displayed := (if displayed st < display_limit then displayed st + 1
                              else displayed st),
                outcomes := outcomes st @ [Some i]\<rparr>
         | (None, best_delta) \<Rightarrow>
             st\<lparr>tick_only := tick_only st + 1,
                shown := (if displayed st < display_limit
                          then shown st @ [CorrNoMarker t_name t_time]
                          else shown st),
                displayed := (if displayed st < display_limit then displayed st + 1
                              else displayed st),
                outcomes := outcomes st @ [None]\<rparr>))"

text \<open>Line 266: the loop over the sorted tick-markers.\<close>

fun match_ticks :: "(real \<Rightarrow> real \<Rightarrow> real) \<Rightarrow> event list \<Rightarrow> event list \<Rightarrow> matcher \<Rightarrow> matcher" where
  "match_ticks adiff marker_list [] st = st"
| "match_ticks adiff marker_list (tick # rest) st =
     match_ticks adiff marker_list rest (match_step adiff marker_list tick st)"

text \<open>Lines 257-264: the initial values of the loop variables.\<close>

definition start :: matcher where
  "start = \<lparr>correlated = 0, tick_only = 0, used_markers = {}, displayed = 0, shown = [],
            outcomes = []\<rparr>"

text \<open>Lines 254-255: the two lists, sorted by timestamp.\<close>

definition tick_list_of :: "event list \<Rightarrow> event list" where
  "tick_list_of tick_markers' = sort_key timestamp tick_markers'"

definition marker_list_of :: "event list \<Rightarrow> event list" where
  "marker_list_of markers = sort_key timestamp markers"

definition correlate :: "(real \<Rightarrow> real \<Rightarrow> real) \<Rightarrow> event list \<Rightarrow> event list \<Rightarrow> matcher" where
  "correlate adiff tick_markers' markers =
     match_ticks adiff (marker_list_of markers) (tick_list_of tick_markers') start"

text \<open>Line 294.\<close>

definition marker_only :: "event list \<Rightarrow> matcher \<Rightarrow> int" where
  "marker_only marker_list st = int (length marker_list) - int (card (used_markers st))"

subsection \<open>Report Assembler (print\_report)\<close>

text \<open>
  A run of a piece of \<^verbatim>\<open>print_report\<close>: the lines printed, and either the exception that
  stopped it or its result.
\<close>

type_synonym 'a printing = "line list \<times> (error + 'a)"

definition say :: "line list \<Rightarrow> unit printing" where
  "say ls = (ls, Inr ())"

definition compute :: "error + 'a \<Rightarrow> 'a printing" where
  "compute r = ([], r)"

text \<open>\<^verbatim>\<open>d[k]\<close> on a result dictionary, for a key that an early return may have left out.\<close>

definition get_key :: "string \<Rightarrow> 'a option \<Rightarrow> 'a printing" where
  "get_key k v = (case v of None \<Rightarrow> ([], Inl (KeyError k)) | Some a \<Rightarrow> ([], Inr a))"

definition next_do :: "'a printing \<Rightarrow> ('a \<Rightarrow> 'b printing) \<Rightarrow> 'b printing" where
  "next_do p f =
     (case p of
        (out, Inl e) \<Rightarrow> (out, Inl e)
      | (out, Inr a) \<Rightarrow> (case f a of (out', r) \<Rightarrow> (out @ out', r)))"

text \<open>
  \<^verbatim>\<open>analyze(files[key]) if files[key] else None\<close>: no call when no file was selected (or
  its path is the empty string).
\<close>

definition analyze_if_found ::
  "(string \<Rightarrow> error + 'a option) \<Rightarrow> string option \<Rightarrow> error + 'a option" where
  "analyze_if_found analyze file =
     (case file of
        None \<Rightarrow> Inr None
      | Some filepath \<Rightarrow> if filepath = [] then Inr None else analyze filepath)"

text \<open>Lines 223-234.\<close>

definition print_sync :: "sync_stats \<Rightarrow> unit printing" where
  "print_sync sync =
     next_do (say [SyncHeading (version (sync_info sync)), SyncStarted (started (sync_info sync)),
                   SyncConfirmed (sync_count sync), SyncStates (sync_states sync)]) (\<lambda>_.
     next_do (get_key ''first_locked'' (first_locked sync)) (\<lambda>locked.
     next_do (say (case locked of
                     None \<Rightarrow> []
                   | Some n \<Rightarrow> if n \<noteq> 0 then [SyncFirstLocked n] else [])) (\<lambda>_.
     next_do (if sync_count sync > 0
              then next_do (get_key ''avg_delta_ms'' (avg_delta_ms sync))
                     (\<lambda>avg. say [SyncAvgDelta avg])
              else say []) (\<lambda>_.
     next_do (get_key ''missed'' (missed sync)) (\<lambda>n_missed.
     next_do (say [SyncMissed n_missed]) (\<lambda>_.
       if sync_intervals sync \<noteq> []
       then say [SyncRange (list_min (sync_intervals sync)) (list_max (sync_intervals sync))]
       else say []))))))"

text \<open>Lines 238-243.\<close>

definition print_ticks :: "tick_stats \<Rightarrow> unit printing" where
  "print_ticks ticks =
     next_do (say [TickHeading, TicksDetected (tick_count ticks),
                   TickMinuteMarkers (marker_count ticks)]) (\<lambda>_.
     next_do (get_key ''good_interval_pct'' (good_interval_pct ticks)) (\<lambda>pct.
     next_do (say [TickGoodPct pct]) (\<lambda>_.
     next_do (get_key ''mean_interval_ms'' (mean_interval_ms ticks)) (\<lambda>mean.
       say [TickMean mean]))))"

text \<open>Lines 247-249.\<close>

definition print_markers :: "marker_stats \<Rightarrow> unit printing" where
  "print_markers markers = say [MarkerHeading, MarkersDetected (mk_count markers)]"

text \<open>Lines 253-298, entered when the condition of line 252 holds.\<close>

definition print_correlation ::
  "(real \<Rightarrow> real \<Rightarrow> real) \<Rightarrow> event list \<Rightarrow> event list \<Rightarrow> sync_stats option \<Rightarrow> unit printing" where
  "print_correlation adiff tick_markers' markers sync =
     (let tick_list = tick_list_of tick_markers';
          marker_list = marker_list_of markers;
          st = correlate adiff tick_markers' markers
      in say ([CorrHeading] @ shown st
              @ (if displayed st \<ge> display_limit
                 then [CorrMore (int (length tick_list) - int display_limit)] else [])
              @ [CorrSummary (correlated st) (tick_only st) (marker_only marker_list st)]
              @ (case sync of None \<Rightarrow> [] | Some s \<Rightarrow> [CorrSyncConfirmed (sync_count s)])))"

text \<open>
  Line 252: the section is printed when
  \<^verbatim>\<open>ticks and markers and ticks['markers'] and markers['markers']\<close>.
\<close>

definition correlation_section ::
  "(real \<Rightarrow> real \<Rightarrow> real) \<Rightarrow> tick_stats option \<Rightarrow> marker_stats option \<Rightarrow> sync_stats option \<Rightarrow> unit printing" where
  "correlation_section adiff ticks markers sync =
     (case ticks of
        None \<Rightarrow> say []
      | Some t \<Rightarrow>
          (case markers of
             None \<Rightarrow> say []
           | Some m \<Rightarrow>
               if tick_markers t \<noteq> [] \<and> mk_markers m \<noteq> []
               then print_correlation adiff (tick_markers t) (mk_markers m) sync
               else say []))"

text \<open>Lines 302-306.\<close>

definition print_channel :: "channel_stats \<Rightarrow> unit printing" where
  "print_channel channel =
     say [ChannelHeading, ChannelQuality (quality channel),
          ChannelRange (snr_min channel) (snr_max channel), ChannelAvg (snr_avg channel)]"

text \<open>Lines 310-316.\<close>

definition print_subcarrier :: "subcarrier_stats \<Rightarrow> unit printing" where
  "print_subcarrier sub =
     say ([SubHeading, SubTotal (sub_total sub), SubMatchRate (match_pct sub)]
          @ map (\<lambda>(exp, n_total, n_match).
                   SubBucket exp n_match n_total
                     (if n_total \<noteq> 0 then 100 * real n_match / real n_total else 0))
                (by_expected sub))"

text \<open>\<^verbatim>\<open>if x: print_section(x)\<close> for the result \<open>x\<close> of an analyzer.\<close>

definition when_present :: "'a option \<Rightarrow> ('a \<Rightarrow> unit printing) \<Rightarrow> unit printing" where
  "when_present x section = (case x of None \<Rightarrow> say [] | Some a \<Rightarrow> section a)"

text \<open>
  The whole of \<^verbatim>\<open>print_report\<close>, for the directory \<open>base\<close> whose listing is \<open>listing\<close>
  (in the order in which \<^verbatim>\<open>os.listdir\<close> returns the names) on the file system \<open>fs\<close>.
\<close>

definition print_report ::
  "(string \<Rightarrow> real option) \<Rightarrow> (real \<Rightarrow> real \<Rightarrow> real) \<Rightarrow> string \<Rightarrow> (string \<times> real) list \<Rightarrow> filesystem \<Rightarrow> unit printing" where
  "print_report flt adiff base listing fs =
     (let files = find_files base listing in
      next_do (say [Rule, Title, Rule]) (\<lambda>_.
      next_do (compute (analyze_if_found (analyze_sync flt fs) (files Sync))) (\<lambda>sync.
      next_do (when_present sync print_sync) (\<lambda>_.
      next_do (compute (analyze_if_found (analyze_ticks flt fs) (files Ticks))) (\<lambda>ticks.
      next_do (when_present ticks print_ticks) (\<lambda>_.
      next_do (compute (analyze_if_found (analyze_markers flt fs) (files Markers))) (\<lambda>markers.
      next_do (when_present markers print_markers) (\<lambda>_.
      next_do (correlation_section adiff ticks markers sync) (\<lambda>_.
      next_do (compute (analyze_if_found (analyze_channel flt fs) (files Channel))) (\<lambda>channel.
      next_do (when_present channel print_channel) (\<lambda>_.
      next_do (compute (analyze_if_found (analyze_subcarrier fs) (files Subcarrier))) (\<lambda>sub.
      next_do (when_present sub print_subcarrier) (\<lambda>_.
        say [Closing])))))))))))))"

text \<open>
  The exit status of the process: the interpreter exits with 1 when an exception reaches
  the top level, and with 0 when the script runs to its end.
\<close>

definition exit_status :: "unit printing \<Rightarrow> int" where
  "exit_status p = (case snd p of Inl e \<Rightarrow> 1 | Inr u \<Rightarrow> 0)"

subsection \<open>Notions for the statements about the Correlation Matcher\<close>

text \<open>
  The marker indices matched by the first \<open>k\<close> tick-markers processed: the contents of
  \<^verbatim>\<open>used_markers\<close> when the tick-marker at position \<open>k\<close> is processed.
\<close>

definition used_before :: "nat \<Rightarrow> nat option list \<Rightarrow> nat set" where
  "used_before k outs = Option.these (set (take k outs))"

text \<open>
  The matching rule as the specification words it, for a tick-marker at time \<open>t\<close> and the
  set \<open>used\<close> of marker indices used so far: the outcome \<open>Some i\<close> names an unused marker
  whose delta \<open>adiff t m_time\<close> is below 1500, is least among the unused markers, and is
  strictly less than that of every unused marker before it in the list; the outcome
  \<open>None\<close> says that the delta of every unused marker is 1500 or more.
\<close>

definition closest_unused ::
  "(real \<Rightarrow> real \<Rightarrow> real) \<Rightarrow> event list \<Rightarrow> nat set \<Rightarrow> real \<Rightarrow> nat option \<Rightarrow> bool" where
  "closest_unused adiff marker_list used t out =
     (case out of
        Some i \<Rightarrow>
          i < length marker_list \<and> i \<notin> used
          \<and> adiff t (timestamp (marker_list ! i)) < 1500
          \<and> (\<forall>j < length marker_list. j \<notin> used \<longrightarrow>
                 adiff t (timestamp (marker_list ! i)) \<le> adiff t (timestamp (marker_list ! j))
                 \<and> (j < i \<longrightarrow> adiff t (timestamp (marker_list ! i)) < adiff t (timestamp (marker_list ! j))))
      | None \<Rightarrow>
          (\<forall>j < length marker_list. j \<notin> used \<longrightarrow> 1500 \<le> adiff t (timestamp (marker_list ! j))))"

text \<open>The index of the marker that \<open>find_best\<close> selects, if any.\<close>

definition chosen :: "(real \<Rightarrow> real \<Rightarrow> real) \<Rightarrow> event list \<Rightarrow> nat set \<Rightarrow> real \<Rightarrow> nat option" where
  "chosen adiff marker_list used t = map_option fst (fst (find_best adiff marker_list used t))"

text \<open>The record of outcomes agrees with \<^verbatim>\<open>used_markers\<close>.\<close>

definition consistent :: "matcher \<Rightarrow> bool" where
  "consistent st \<longleftrightarrow> used_markers st = Option.these (set (outcomes st))"

text \<open>Every used index is an index of the marker list, and there is one per match.\<close>

definition bounded :: "event list \<Rightarrow> matcher \<Rightarrow> bool" where
  "bounded ml st \<longleftrightarrow> used_markers st \<subseteq> {..<length ml} \<and> card (used_markers st) = correlated st"

subsection \<open>Notions for the statements about the analyzers and the report\<close>

text \<open>
  The values of the \<^verbatim>\<open>interval_ms\<close> fields that parse, in row order: what the specification
  calls the parsed interval values of the tick rows.
\<close>

definition parsed_intervals :: "(string \<Rightarrow> real option) \<Rightarrow> row list \<Rightarrow> real list" where
  "parsed_intervals flt ticks =
     concat (map (\<lambda>t. case float_col flt t ''interval_ms'' of Inl e \<Rightarrow> [] | Inr x \<Rightarrow> [x]) ticks)"

text \<open>
  A log without the rows whose field \<open>k\<close> does not parse. The text lines are kept:
  \<open>parse_header\<close> reads them up to the first line that is not a comment.
\<close>

definition without_unparsable :: "(string \<Rightarrow> real option) \<Rightarrow> string \<Rightarrow> log_file \<Rightarrow> log_file" where
  "without_unparsable flt k file =
     file\<lparr>dict_rows := filter (\<lambda>r. \<not> isl (float_col flt r k)) (dict_rows file)\<rparr>"




text \<open>The category that the chain of tests of lines 195-209 assigns to a file name.\<close>

definition category_of :: "string \<Rightarrow> category option" where
  "category_of f =
     (if \<not> endswith f ''.csv'' then None
      else if contains ''sync'' f then Some Sync
      else if contains ''ticks'' f then Some Ticks
      else if contains ''markers'' f then Some Markers
      else if contains ''subcarrier'' f then Some Subcarrier
      else if contains ''channel'' f then Some Channel
      else None)"

text \<open>The labels of a list in the order of their first occurrence, after those in \<open>seen\<close>.\<close>

fun first_seen :: "string list \<Rightarrow> string list \<Rightarrow> string list" where
  "first_seen seen [] = seen"
| "first_seen seen (x # xs) =
     (if x \<in> set seen then first_seen seen xs else first_seen (seen @ [x]) xs)"

subsection \<open>The field texts of the examples\<close>

text \<open>
  The examples below instantiate \<open>flt\<close> with \<open>float_of_digits\<close>, which agrees with
  \<^verbatim>\<open>float()\<close> on the field texts that they use: a non-empty run of ASCII digits is read
  as the integer written (which \<^verbatim>\<open>float()\<close> returns exactly, the integers used being far
  below \<open>2^53\<close>), and \<^verbatim>\<open>float('abc')\<close> raises \<^verbatim>\<open>ValueError\<close>. No example uses a text of
  another form.
\<close>

definition digit_of :: "char \<Rightarrow> real option" where
  "digit_of c =
     map_of [(CHR ''0'', 0), (CHR ''1'', 1), (CHR ''2'', 2), (CHR ''3'', 3), (CHR ''4'', 4),
             (CHR ''5'', 5), (CHR ''6'', 6), (CHR ''7'', 7), (CHR ''8'', 8), (CHR ''9'', 9)] c"

fun digits_value :: "real \<Rightarrow> string \<Rightarrow> real option" where
  "digits_value acc [] = Some acc"
| "digits_value acc (c # cs) =
     (case digit_of c of None \<Rightarrow> None | Some d \<Rightarrow> digits_value (10 * acc + d) cs)"

definition float_of_digits :: "string \<Rightarrow> real option" where
  "float_of_digits s = (if s = [] then None else digits_value 0 s)"

text \<open>
  The examples instantiate \<open>adiff\<close> with \<open>example_absdiff\<close>, which agrees with
  \<^verbatim>\<open>abs(t_time - m_time)\<close> in double arithmetic on the timestamps that they use. A double
  between 1024 and 2048 has 42 binary digits after the point, so a difference in that range
  is rounded to the nearest multiple of \<open>2^-42\<close> (no example has a difference half-way
  between two of them, where the double result is the one with an even last digit). The
  other differences of the examples are differences of integers far below \<open>2^53\<close>, which
  double subtraction returns exactly.
\<close>

definition example_absdiff :: "real \<Rightarrow> real \<Rightarrow> real" where
  "example_absdiff a b =
     (let d = \<bar>a - b\<bar> in
      if 1024 \<le> d \<and> d < 2048 then of_int (round (d * 2 ^ 42)) / 2 ^ 42 else d)"

subsection \<open>Facts about the Log Locator\<close>

lemma sort_reverse_head_greatest:
  assumes "sort_reverse c = x # others" and "y \<in> set c"
  shows "x \<in> set c \<and> y \<le> x"
proof -
  from assms(1) have r: "sort c = rev others @ [x]"
    by (metis sort_reverse_def rev.simps(2) rev_rev_ident)
  have "set (sort c) = set c" by simp
  with r have xin: "x \<in> set c" by (metis in_set_conv_decomp)
  have "sorted (rev others @ [x])" using r by (metis sorted_sort)
  then have "\<forall>z \<in> set (rev others). z \<le> x" by (simp add: sorted_append)
  moreover have "y \<in> set (rev others @ [x])" using r assms(2) by (metis set_sort)
  ultimately have "y \<le> x" by auto
  with xin show ?thesis by simp
qed

lemma sort_reverse_Nil: "sort_reverse c = [] \<longleftrightarrow> c = []"
proof -
  have "length (sort_reverse c) = length c" by (simp add: sort_reverse_def)
  then show ?thesis by (metis length_0_conv)
qed

text \<open>
  C3 (as amended). Whenever a category has candidates, the Log Locator selects one of them
  with the latest modification time, and among the candidates sharing that time the one
  whose path is greatest (last) in lexicographic order: every candidate \<open>(m', p')\<close> is
  either strictly older than the selected \<open>(m, p)\<close>, or as old with \<open>p' \<le> p\<close>.
\<close>

theorem find_files_latest_greatest_path:
  assumes "(m', p') \<in> set (candidates base listing key)"
  shows "\<exists>m p. find_files base listing key = Some p
           \<and> (m, p) \<in> set (candidates base listing key)
           \<and> (m' < m \<or> (m' = m \<and> p' \<le> p))"
proof -
  let ?c = "candidates base listing key"
  from assms have "?c \<noteq> []" by auto
  then obtain x others where s: "sort_reverse ?c = x # others"
    by (metis sort_reverse_Nil list.exhaust)
  obtain m p where x: "x = (m, p)" by (cases x)
  from sort_reverse_head_greatest [OF s assms] x
  have "(m, p) \<in> set ?c" and le: "(m', p') \<le> (m, p)" by simp_all
  from le have "m' < m \<or> (m' = m \<and> p' \<le> p)"
    by (auto simp: less_eq_prod_def)
  moreover have "find_files base listing key = Some p"
    using s x by (simp add: find_files_def)
  ultimately show ?thesis using \<open>(m, p) \<in> set ?c\<close> by blast
qed

lemma candidates_two_sync:
  "candidates ''.'' [(''a_sync.csv'', 5), (''b_sync.csv'', 5)] Sync
     = [(5, ''./a_sync.csv''), (5, ''./b_sync.csv'')]"
  by code_simp

theorem find_files_latest_greatest_path_witness:
  "(5, ''./a_sync.csv'') \<in> set (candidates ''.'' [(''a_sync.csv'', 5), (''b_sync.csv'', 5)] Sync)
   \<and> (\<exists>m p. find_files ''.'' [(''a_sync.csv'', 5), (''b_sync.csv'', 5)] Sync = Some p
           \<and> (m, p) \<in> set (candidates ''.'' [(''a_sync.csv'', 5), (''b_sync.csv'', 5)] Sync)
           \<and> (5 < m \<or> (5 = m \<and> ''./a_sync.csv'' \<le> p)))"
proof -
  have h: "(5, ''./a_sync.csv'')
             \<in> set (candidates ''.'' [(''a_sync.csv'', 5), (''b_sync.csv'', 5)] Sync)"
    by (simp add: candidates_two_sync)
  from find_files_latest_greatest_path [OF h] h show ?thesis by blast
qed

text \<open>
  C3 as stated fails: two candidates of the category sync with the same modification time,
  and the one selected is the later of the two paths in lexicographic order, not the first.
\<close>

theorem find_files_tie_counterexample:
  "find_files ''.'' [(''a_sync.csv'', 5), (''b_sync.csv'', 5)] Sync = Some ''./b_sync.csv''
   \<and> ''./a_sync.csv'' < ''./b_sync.csv''"
  by (simp add: find_files_def sort_reverse_def candidates_two_sync)

subsection \<open>Facts about the Correlation Matcher\<close>

lemma scan_markers_Cons:
  "scan_markers adiff t used ((k, (n, m, d)) # es) (bm, bd) =
     (if k \<notin> used \<and> adiff t m < bd then scan_markers adiff t used es (Some (k, (n, m, d)), adiff t m)
      else scan_markers adiff t used es (bm, bd))"
  by (simp add: Let_def)

lemma scan_markers_le: "snd (scan_markers adiff t used es (bm, bd)) \<le> bd"
proof (induction es arbitrary: bm bd)
  case Nil
  show ?case by simp
next
  case (Cons x es)
  obtain i m_name m_time m_dur where x: "x = (i, (m_name, m_time, m_dur))" by (metis prod_cases3)
  show ?case
  proof (cases "i \<notin> used \<and> adiff t m_time < bd")
    case True
    have "snd (scan_markers adiff t used es (Some x, adiff t m_time)) \<le> adiff t m_time" by (rule Cons.IH)
    with True x show ?thesis by (simp add: Let_def)
  next
    case False
    have "snd (scan_markers adiff t used es (bm, bd)) \<le> bd" by (rule Cons.IH)
    with False x show ?thesis by (auto simp add: Let_def)
  qed
qed

lemma scan_markers_lower_bound:
  "(j, e) \<in> set es \<Longrightarrow> j \<notin> used \<Longrightarrow> snd (scan_markers adiff t used es (bm, bd)) \<le> adiff t (timestamp e)"
proof (induction es arbitrary: bm bd)
  case Nil
  then show ?case by simp
next
  case (Cons x es)
  obtain i m_name m_time m_dur where x: "x = (i, (m_name, m_time, m_dur))" by (metis prod_cases3)
  show ?case
  proof (cases "(j, e) = x")
    case True
    then have je: "j = i" "timestamp e = m_time" using x by (auto simp: timestamp_def)
    show ?thesis
    proof (cases "adiff t m_time < bd")
      case True
      have "snd (scan_markers adiff t used es (Some x, adiff t m_time)) \<le> adiff t m_time"
        by (rule scan_markers_le)
      with True x je Cons.prems(2) show ?thesis by (simp add: Let_def)
    next
      case False
      have "snd (scan_markers adiff t used es (bm, bd)) \<le> bd" by (rule scan_markers_le)
      with False x je Cons.prems(2) show ?thesis by (simp add: Let_def)
    qed
  next
    case False
    with Cons.prems have mem: "(j, e) \<in> set es" by simp
    note ih = Cons.IH [OF mem Cons.prems(2)]
    show ?thesis
    proof (cases "i \<notin> used \<and> adiff t m_time < bd")
      case True
      with ih [of "Some x" "adiff t m_time"] x show ?thesis by (simp add: Let_def)
    next
      case False
      with ih [of bm bd] x show ?thesis by (auto simp add: Let_def)
    qed
  qed
qed

text \<open>Either nothing improved, or the result is an unused element with its own delta.\<close>
lemma scan_markers_result:
  "scan_markers adiff t used es (bm, bd) = (bm, bd)
   \<or> (\<exists>i e. scan_markers adiff t used es (bm, bd) = (Some (i, e), adiff t (timestamp e))
         \<and> (i, e) \<in> set es \<and> i \<notin> used \<and> adiff t (timestamp e) < bd)"
proof (induction es arbitrary: bm bd)
  case Nil
  show ?case by simp
next
  case (Cons x es)
  obtain i m_name m_time m_dur where x: "x = (i, (m_name, m_time, m_dur))" by (metis prod_cases3)
  have tx: "timestamp (m_name, m_time, m_dur) = m_time" by (simp add: timestamp_def)
  show ?case
  proof (cases "i \<notin> used \<and> adiff t m_time < bd")
    case True
    then have eq: "scan_markers adiff t used (x # es) (bm, bd) = scan_markers adiff t used es (Some x, adiff t m_time)"
      using x by (simp add: Let_def)
    from Cons.IH [of "Some x" "adiff t m_time"] show ?thesis
    proof
      assume "scan_markers adiff t used es (Some x, adiff t m_time) = (Some x, adiff t m_time)"
      with eq True x tx show ?thesis by auto
    next
      assume "\<exists>i e. scan_markers adiff t used es (Some x, adiff t m_time) = (Some (i, e), adiff t (timestamp e))
         \<and> (i, e) \<in> set es \<and> i \<notin> used \<and> adiff t (timestamp e) < adiff t m_time"
      then obtain i' e' where "scan_markers adiff t used es (Some x, adiff t m_time) = (Some (i', e'), adiff t (timestamp e'))"
        "(i', e') \<in> set es" "i' \<notin> used" "adiff t (timestamp e') < adiff t m_time" by blast
      with eq True show ?thesis by auto
    qed
  next
    case False
    then have eq: "scan_markers adiff t used (x # es) (bm, bd) = scan_markers adiff t used es (bm, bd)"
      using x by (auto simp add: Let_def)
    from Cons.IH [of bm bd] eq show ?thesis by auto
  qed
qed

text \<open>Elements before the chosen one are strictly farther.\<close>
lemma scan_markers_first:
  assumes "sorted_wrt (<) (map fst es)"
    and "scan_markers adiff t used es (bm, bd) = (Some (i, e), d)" and "d < bd"
    and "(j, e') \<in> set es" and "j \<notin> used" and "j < i"
  shows "d < adiff t (timestamp e')"
  using assms
proof (induction es arbitrary: bm bd)
  case Nil
  then show ?case by simp
next
  case (Cons x es)
  obtain k m_name m_time m_dur where x: "x = (k, (m_name, m_time, m_dur))" by (metis prod_cases3)
  have tx: "timestamp (m_name, m_time, m_dur) = m_time" by (simp add: timestamp_def)
  from Cons.prems(1) have srt: "sorted_wrt (<) (map fst es)" and gt: "\<And>p. p \<in> set es \<Longrightarrow> k < fst p"
    using x by auto
  show ?case
  proof (cases "k \<notin> used \<and> adiff t m_time < bd")
    case True
    then have eq: "scan_markers adiff t used es (Some x, adiff t m_time) = (Some (i, e), d)"
      using x Cons.prems(2) by (simp add: scan_markers_Cons del: scan_markers.simps)
    from scan_markers_result [of adiff t used es "Some x" "adiff t m_time"] show ?thesis
    proof
      assume "scan_markers adiff t used es (Some x, adiff t m_time) = (Some x, adiff t m_time)"
      with eq x have ik: "i = k" by simp
      from Cons.prems(4) x gt [of "(j, e')"] have "j = k \<or> k < j" by auto
      with ik Cons.prems(6) show ?thesis by simp
    next
      assume "\<exists>i e. scan_markers adiff t used es (Some x, adiff t m_time) = (Some (i, e), adiff t (timestamp e))
         \<and> (i, e) \<in> set es \<and> i \<notin> used \<and> adiff t (timestamp e) < adiff t m_time"
      with eq have lt: "d < adiff t m_time" by auto
      show ?thesis
      proof (cases "(j, e') = x")
        case True
        with lt x tx show ?thesis by auto
      next
        case False
        with Cons.prems(4) have "(j, e') \<in> set es" by simp
        from Cons.IH [OF srt eq lt this Cons.prems(5,6)] show ?thesis .
      qed
    qed
  next
    case False
    then have eq: "scan_markers adiff t used es (bm, bd) = (Some (i, e), d)"
      using x Cons.prems(2)
      by (auto simp add: scan_markers_Cons simp del: scan_markers.simps split: if_splits)
    show ?thesis
    proof (cases "(j, e') = x")
      case True
      with False x tx Cons.prems(3,5) show ?thesis by auto
    next
      case nx: False
      with Cons.prems(4) have "(j, e') \<in> set es" by simp
      from Cons.IH [OF srt eq Cons.prems(3) this Cons.prems(5,6)] show ?thesis .
    qed
  qed
qed

lemma enumerate_member: "j < length ml \<Longrightarrow> (j, ml ! j) \<in> set (enumerate 0 ml)"
  by (simp add: in_set_enumerate_eq)

lemma enumerate_sorted: "sorted_wrt (<) (map fst (enumerate 0 ml))"
  by (simp add: map_fst_enumerate)

lemma find_best_closest: "closest_unused adiff ml used t (chosen adiff ml used t)"
proof -
  let ?es = "enumerate 0 ml"
  let ?r = "scan_markers adiff t used ?es (None, 1500)"
  have lb: "\<And>j. j < length ml \<Longrightarrow> j \<notin> used \<Longrightarrow> snd ?r \<le> adiff t (timestamp (ml ! j))"
    by (rule scan_markers_lower_bound [OF enumerate_member])
  from scan_markers_result [of adiff t used ?es None 1500] show ?thesis
  proof
    assume r: "?r = (None, 1500)"
    then have "chosen adiff ml used t = None" by (simp add: chosen_def find_best_def)
    moreover from lb r have "\<forall>j < length ml. j \<notin> used \<longrightarrow> 1500 \<le> adiff t (timestamp (ml ! j))"
      by simp
    ultimately show ?thesis by (simp add: closest_unused_def)
  next
    assume "\<exists>i e. ?r = (Some (i, e), adiff t (timestamp e)) \<and> (i, e) \<in> set ?es \<and> i \<notin> used
              \<and> adiff t (timestamp e) < 1500"
    then obtain i e where r: "?r = (Some (i, e), adiff t (timestamp e))"
      and mem: "(i, e) \<in> set ?es" and nu: "i \<notin> used" and lt: "adiff t (timestamp e) < 1500"
      by blast
    from mem have il: "i < length ml" and e: "ml ! i = e" by (auto simp: in_set_enumerate_eq)
    have c: "chosen adiff ml used t = Some i" using r by (simp add: chosen_def find_best_def)
    have le: "\<forall>j < length ml. j \<notin> used \<longrightarrow> adiff t (timestamp (ml ! i)) \<le> adiff t (timestamp (ml ! j))"
      using lb r e by simp
    have first: "\<forall>j < length ml. j \<notin> used \<longrightarrow> j < i \<longrightarrow>
                   adiff t (timestamp (ml ! i)) < adiff t (timestamp (ml ! j))"
    proof (intro allI impI)
      fix j assume j: "j < length ml" "j \<notin> used" "j < i"
      from scan_markers_first [OF enumerate_sorted r lt enumerate_member [OF j(1)] j(2) j(3)] e
      show "adiff t (timestamp (ml ! i)) < adiff t (timestamp (ml ! j))" by simp
    qed
    from c il nu lt e le first show ?thesis by (simp add: closest_unused_def)
  qed
qed

lemma match_step_outcomes:
  "outcomes (match_step adiff ml tick st) = outcomes st @ [chosen adiff ml (used_markers st) (timestamp tick)]"
  by (cases tick) (auto simp: match_step_def chosen_def timestamp_def split: prod.splits option.splits)

lemma match_step_used:
  "used_markers (match_step adiff ml tick st) =
     (case chosen adiff ml (used_markers st) (timestamp tick) of
        None \<Rightarrow> used_markers st | Some i \<Rightarrow> insert i (used_markers st))"
  by (cases tick) (auto simp: match_step_def chosen_def timestamp_def split: prod.splits option.splits)

lemma match_step_counts:
  "correlated (match_step adiff ml tick st) =
     correlated st + (case chosen adiff ml (used_markers st) (timestamp tick) of None \<Rightarrow> 0 | Some i \<Rightarrow> 1)"
  "tick_only (match_step adiff ml tick st) =
     tick_only st + (case chosen adiff ml (used_markers st) (timestamp tick) of None \<Rightarrow> 1 | Some i \<Rightarrow> 0)"
  by (cases tick; auto simp: match_step_def chosen_def timestamp_def split: prod.splits option.splits)+

lemma match_step_consistent: "consistent st \<Longrightarrow> consistent (match_step adiff ml tick st)"
  by (cases "chosen adiff ml (used_markers st) (timestamp tick)")
     (simp_all add: consistent_def match_step_outcomes match_step_used)

lemma match_ticks_outcomes_prefix:
  "take (length (outcomes st)) (outcomes (match_ticks adiff ml ts st)) = outcomes st
   \<and> length (outcomes (match_ticks adiff ml ts st)) = length (outcomes st) + length ts"
proof (induction ts arbitrary: st)
  case Nil
  show ?case by simp
next
  case (Cons tick ts)
  let ?st1 = "match_step adiff ml tick st"
  from Cons.IH [of ?st1]
  have t: "take (length (outcomes ?st1)) (outcomes (match_ticks adiff ml ts ?st1)) = outcomes ?st1"
    and l: "length (outcomes (match_ticks adiff ml ts ?st1)) = length (outcomes ?st1) + length ts"
    by simp_all
  have "take (length (outcomes st)) (outcomes (match_ticks adiff ml ts ?st1))
          = take (length (outcomes st)) (take (length (outcomes ?st1)) (outcomes (match_ticks adiff ml ts ?st1)))"
    by (simp add: match_step_outcomes)
  also have "\<dots> = take (length (outcomes st)) (outcomes ?st1)" by (simp only: t)
  also have "\<dots> = outcomes st" by (simp add: match_step_outcomes)
  finally show ?case using l by (simp add: match_step_outcomes)
qed

lemma match_ticks_consistent: "consistent st \<Longrightarrow> consistent (match_ticks adiff ml ts st)"
  by (induction ts arbitrary: st) (simp_all add: match_step_consistent)

lemma match_ticks_closest:
  assumes "consistent st" and "k < length ts"
  shows "closest_unused adiff ml
           (used_before (length (outcomes st) + k) (outcomes (match_ticks adiff ml ts st)))
           (timestamp (ts ! k))
           (outcomes (match_ticks adiff ml ts st) ! (length (outcomes st) + k))"
  using assms
proof (induction ts arbitrary: st k)
  case Nil
  then show ?case by simp
next
  case (Cons tick ts)
  let ?st1 = "match_step adiff ml tick st"
  let ?fin = "match_ticks adiff ml ts ?st1"
  have c1: "consistent ?st1" using Cons.prems(1) by (rule match_step_consistent)
  have len1: "length (outcomes ?st1) = length (outcomes st) + 1" by (simp add: match_step_outcomes)
  have pre: "take (length (outcomes ?st1)) (outcomes ?fin) = outcomes ?st1"
    using match_ticks_outcomes_prefix [of ?st1 adiff ml ts] by simp
  show ?case
  proof (cases k)
    case 0
    have "take (length (outcomes st)) (outcomes ?fin)
            = take (length (outcomes st)) (take (length (outcomes ?st1)) (outcomes ?fin))"
      by (simp add: len1)
    also have "\<dots> = take (length (outcomes st)) (outcomes ?st1)" by (simp only: pre)
    also have "\<dots> = outcomes st" by (simp add: match_step_outcomes)
    finally have u: "used_before (length (outcomes st)) (outcomes ?fin) = used_markers st"
      using Cons.prems(1) by (simp add: used_before_def consistent_def)
    have "take (length (outcomes ?st1)) (outcomes ?fin) ! length (outcomes st)
            = outcomes ?fin ! length (outcomes st)"
      by (rule nth_take) (simp add: len1)
    then have "outcomes ?fin ! length (outcomes st) = outcomes ?st1 ! length (outcomes st)"
      by (simp only: pre)
    also have "\<dots> = chosen adiff ml (used_markers st) (timestamp tick)"
      by (simp add: match_step_outcomes)
    finally show ?thesis using 0 u find_best_closest [of adiff ml "used_markers st" "timestamp tick"]
      by simp
  next
    case (Suc k')
    with Cons.prems(2) have "k' < length ts" by simp
    from Cons.IH [OF c1 this] Suc len1 show ?thesis by simp
  qed
qed

lemma match_ticks_counts:
  "correlated (match_ticks adiff ml ts st) + tick_only (match_ticks adiff ml ts st)
     = correlated st + tick_only st + length ts"
  by (induction ts arbitrary: st) (auto simp: match_step_counts split: option.splits)


lemma match_step_bounded: "bounded ml st \<Longrightarrow> bounded ml (match_step adiff ml tick st)"
proof -
  assume b: "bounded ml st"
  then have fin: "finite (used_markers st)" by (auto simp: bounded_def intro: finite_subset)
  show ?thesis
  proof (cases "chosen adiff ml (used_markers st) (timestamp tick)")
    case None
    with b show ?thesis by (simp add: bounded_def match_step_used match_step_counts)
  next
    case (Some i)
    with find_best_closest [of adiff ml "used_markers st" "timestamp tick"]
    have "i < length ml" "i \<notin> used_markers st" by (simp_all add: closest_unused_def)
    with b fin Some show ?thesis by (simp add: bounded_def match_step_used match_step_counts)
  qed
qed

lemma match_ticks_bounded: "bounded ml st \<Longrightarrow> bounded ml (match_ticks adiff ml ts st)"
  by (induction ts arbitrary: st) (simp_all add: match_step_bounded)

lemma correlate_start: "correlate adiff tms ms = match_ticks adiff (marker_list_of ms) (tick_list_of tms) start"
  by (simp add: correlate_def)

lemma start_facts: "consistent start" "bounded ml start" "outcomes start = []"
  "correlated start = 0" "tick_only start = 0"
  by (simp_all add: start_def consistent_def bounded_def)


lemma scenario_lists:
  "tick_list_of [(''M1'', 1000, 800), (''M2'', 62000, 800)] = [(''M1'', 1000, 800), (''M2'', 62000, 800)]"
  "marker_list_of [(''M1'', 1050, 800), (''M2'', 70000, 800)] = [(''M1'', 1050, 800), (''M2'', 70000, 800)]"
  by (simp_all add: tick_list_of_def marker_list_of_def timestamp_def)

lemma example_absdiff_values:
  "example_absdiff 1000 1050 = 50" "example_absdiff 1000 70000 = 69000"
  "example_absdiff 62000 1050 = 60950" "example_absdiff 62000 70000 = 8000"
  by (simp_all add: example_absdiff_def)

lemma scenario_correlate:
  "correlate example_absdiff [(''M1'', 1000, 800), (''M2'', 62000, 800)] [(''M1'', 1050, 800), (''M2'', 70000, 800)]
     = \<lparr>correlated = 1, tick_only = 1, used_markers = {0}, displayed = 2,
        shown = [CorrMatched ''M1'' ''M1'' 50, CorrNoMarker ''M2'' 62000],
        outcomes = [Some 0, None]\<rparr>"
  by (simp add: correlate_def start_def scenario_lists match_step_def find_best_def
        enumerate_eq_zip display_limit_def Let_def upt_rec example_absdiff_values)




text \<open>
  C7. The pairing is injective in both directions: there is exactly one outcome per
  tick-marker (so a tick-marker is paired with at most one marker), a marker index matched
  at some position was not used by any earlier tick-marker, hence no marker is matched at
  two positions, and \<^verbatim>\<open>used_markers\<close> holds exactly the matched markers.
\<close>

theorem correlate_pairing_injective:
  "length (outcomes (correlate adiff tms ms)) = length (tick_list_of tms)
   \<and> (\<forall>k < length (outcomes (correlate adiff tms ms)). \<forall>i.
         outcomes (correlate adiff tms ms) ! k = Some i \<longrightarrow>
           i < length (marker_list_of ms) \<and> i \<notin> used_before k (outcomes (correlate adiff tms ms)))
   \<and> (\<forall>k < length (outcomes (correlate adiff tms ms)). \<forall>k' < length (outcomes (correlate adiff tms ms)). \<forall>i.
         outcomes (correlate adiff tms ms) ! k = Some i \<and> outcomes (correlate adiff tms ms) ! k' = Some i
           \<longrightarrow> k = k')
   \<and> used_markers (correlate adiff tms ms) = Option.these (set (outcomes (correlate adiff tms ms)))"
proof -
  let ?outs = "outcomes (correlate adiff tms ms)"
  let ?ml = "marker_list_of ms"
  have len: "length ?outs = length (tick_list_of tms)"
    using match_ticks_outcomes_prefix [of start adiff ?ml "tick_list_of tms"]
    by (simp add: correlate_start start_facts)
  have fresh: "i < length ?ml \<and> i \<notin> used_before k ?outs"
    if "k < length ?outs" and "?outs ! k = Some i" for k i
  proof -
    from that(1) len have "k < length (tick_list_of tms)" by simp
    from match_ticks_closest [OF start_facts(1) this, of adiff ?ml] that(2)
    show ?thesis by (simp add: correlate_start start_facts closest_unused_def)
  qed
  have earlier: "i \<in> used_before k' ?outs"
    if "k < k'" and "k' < length ?outs" and "?outs ! k = Some i" for k k' i
  proof -
    from that have "take k' ?outs ! k = Some i" and "k < length (take k' ?outs)" by simp_all
    then have "Some i \<in> set (take k' ?outs)" by (metis nth_mem)
    then show ?thesis by (simp add: used_before_def in_these_eq)
  qed
  have inj: "k = k'"
    if "k < length ?outs" and "k' < length ?outs" and "?outs ! k = Some i" and "?outs ! k' = Some i"
    for k k' i
  proof (rule ccontr)
    assume "k \<noteq> k'"
    then consider "k < k'" | "k' < k" by linarith
    then show False
    proof cases
      case 1
      from earlier [OF 1 that(2) that(3)] fresh [OF that(2) that(4)] show False by simp
    next
      case 2
      from earlier [OF 2 that(1) that(4)] fresh [OF that(1) that(3)] show False by simp
    qed
  qed
  have used: "used_markers (correlate adiff tms ms) = Option.these (set ?outs)"
    using match_ticks_consistent [OF start_facts(1), of adiff ?ml "tick_list_of tms"]
    by (simp add: correlate_start consistent_def)
  from len fresh inj used show ?thesis by blast
qed

theorem correlate_pairing_injective_witness:
  "(0::nat) < length (outcomes (correlate example_absdiff [(''M1'', 1000, 800), (''M2'', 62000, 800)]
                                 [(''M1'', 1050, 800), (''M2'', 70000, 800)]))
   \<and> outcomes (correlate example_absdiff [(''M1'', 1000, 800), (''M2'', 62000, 800)]
                         [(''M1'', 1050, 800), (''M2'', 70000, 800)]) ! 0 = Some 0
   \<and> (0::nat) < length (marker_list_of [(''M1'', 1050, 800), (''M2'', 70000, 800)])
   \<and> 0 \<notin> used_before 0 (outcomes (correlate example_absdiff [(''M1'', 1000, 800), (''M2'', 62000, 800)]
                                           [(''M1'', 1050, 800), (''M2'', 70000, 800)]))"
proof -
  let ?tms = "[(''M1'', 1000, 800), (''M2'', 62000, 800)] :: event list"
  let ?ms = "[(''M1'', 1050, 800), (''M2'', 70000, 800)] :: event list"
  have h: "(0::nat) < length (outcomes (correlate example_absdiff ?tms ?ms))"
    "outcomes (correlate example_absdiff ?tms ?ms) ! 0 = Some 0"
    by (simp_all add: scenario_correlate)
  from correlate_pairing_injective [where adiff = example_absdiff and tms = ?tms and ms = ?ms]
  have "\<forall>k < length (outcomes (correlate example_absdiff ?tms ?ms)). \<forall>i.
         outcomes (correlate example_absdiff ?tms ?ms) ! k = Some i \<longrightarrow>
           i < length (marker_list_of ?ms) \<and> i \<notin> used_before k (outcomes (correlate example_absdiff ?tms ?ms))"
    by blast
  with h have "0 < length (marker_list_of ?ms) \<and> 0 \<notin> used_before 0 (outcomes (correlate example_absdiff ?tms ?ms))"
    by blast
  with h show ?thesis by blast
qed

text \<open>
  C8. The two accounting identities: matched plus tick-only is the number of
  tick-markers, and matched plus marker-only is the number of markers.
\<close>

theorem correlate_accounting:
  "correlated (correlate adiff tms ms) + tick_only (correlate adiff tms ms) = length tms
   \<and> int (correlated (correlate adiff tms ms)) + marker_only (marker_list_of ms) (correlate adiff tms ms)
       = int (length ms)"
proof -
  have "correlated (correlate adiff tms ms) + tick_only (correlate adiff tms ms) = length (tick_list_of tms)"
    using match_ticks_counts [of adiff "marker_list_of ms" "tick_list_of tms" start]
    by (simp add: correlate_start start_facts)
  then have a: "correlated (correlate adiff tms ms) + tick_only (correlate adiff tms ms) = length tms"
    by (simp add: tick_list_of_def)
  have "bounded (marker_list_of ms) (correlate adiff tms ms)"
    unfolding correlate_start by (rule match_ticks_bounded) (rule start_facts)
  then have "card (used_markers (correlate adiff tms ms)) = correlated (correlate adiff tms ms)"
    by (simp add: bounded_def)
  then have b: "int (correlated (correlate adiff tms ms)) + marker_only (marker_list_of ms) (correlate adiff tms ms)
       = int (length ms)"
    by (simp add: marker_only_def marker_list_of_def)
  from a b show ?thesis by simp
qed

theorem correlate_accounting_witness:
  "correlated (correlate example_absdiff [(''M1'', 1000, 800), (''M2'', 62000, 800)]
                         [(''M1'', 1050, 800), (''M2'', 70000, 800)]) = 1
   \<and> tick_only (correlate example_absdiff [(''M1'', 1000, 800), (''M2'', 62000, 800)]
                           [(''M1'', 1050, 800), (''M2'', 70000, 800)]) = 1
   \<and> marker_only (marker_list_of [(''M1'', 1050, 800), (''M2'', 70000, 800)])
        (correlate example_absdiff [(''M1'', 1000, 800), (''M2'', 62000, 800)]
                   [(''M1'', 1050, 800), (''M2'', 70000, 800)]) = 1"
  using correlate_accounting [where adiff = example_absdiff
      and tms = "[(''M1'', 1000, 800), (''M2'', 62000, 800)]"
      and ms = "[(''M1'', 1050, 800), (''M2'', 70000, 800)]"]
  by (simp add: scenario_correlate)

subsection \<open>Facts about the scan of the directory\<close>

lemma scan_dir_step:
  "scan_dir base ((f, mtime) # rest) cands
     = scan_dir base rest
         (case category_of f of
            None \<Rightarrow> cands
          | Some c \<Rightarrow> cands (c := cands c @ [(mtime, path_join base f)]))"
  by (simp add: category_of_def Let_def)

lemma scan_dir_eq:
  "scan_dir base listing cands key
     = cands key @ map (\<lambda>(f, mtime). (mtime, path_join base f))
                     (filter (\<lambda>(f, mtime). category_of f = Some key) listing)"
proof (induction listing arbitrary: cands)
  case Nil
  show ?case by simp
next
  case (Cons x listing)
  obtain f mtime where x: "x = (f, mtime)" by (cases x)
  show ?case
  proof (cases "category_of f")
    case None
    with Cons.IH x show ?thesis by (simp add: scan_dir_step del: scan_dir.simps)
  next
    case (Some c)
    with Cons.IH x show ?thesis by (simp add: scan_dir_step del: scan_dir.simps)
  qed
qed

lemma candidates_eq:
  "candidates base listing key
     = map (\<lambda>(f, mtime). (mtime, path_join base f))
           (filter (\<lambda>(f, mtime). category_of f = Some key) listing)"
  by (simp add: candidates_def scan_dir_eq)

lemma category_of_examples:
  "category_of ''sync.csv'' = Some Sync"
  "category_of ''ticks.csv'' = Some Ticks"
  "category_of ''markers.csv'' = Some Markers"
  "category_of ''channel.csv'' = Some Channel"
  by code_simp+

lemma path_join_examples:
  "path_join ''.'' ''sync.csv'' = ''./sync.csv''"
  "path_join ''.'' ''ticks.csv'' = ''./ticks.csv''"
  "path_join ''.'' ''markers.csv'' = ''./markers.csv''"
  "path_join ''.'' ''channel.csv'' = ''./channel.csv''"
  by code_simp+

lemma find_files_perm:
  assumes "mset listing' = mset listing"
  shows "find_files base listing' = find_files base listing"
proof
  fix key
  have "mset (candidates base listing' key) = mset (candidates base listing key)"
    by (simp add: candidates_eq assms)
  then have "sort (candidates base listing' key) = sort (candidates base listing key)"
    by (metis sorted_list_of_multiset_mset)
  then show "find_files base listing' key = find_files base listing key"
    by (simp add: find_files_def sort_reverse_def)
qed

subsection \<open>Evaluation of the examples\<close>

lemma float_of_digits_examples:
  "float_of_digits ''0'' = Some 0" "float_of_digits ''5'' = Some 5"
  "float_of_digits ''1000'' = Some 1000" "float_of_digits ''abc'' = None"
  by (simp_all add: float_of_digits_def digit_of_def)

lemmas row_simps = col_def float_col_def and_then_def to_float_def float_of_digits_examples
  startswith_def

lemmas report_simps = print_report_def next_do_def say_def compute_def get_key_def
  analyze_if_found_def when_present_def correlation_section_def

lemma listing_sync: "find_files ''.'' [(''sync.csv'', 1)] = (\<lambda>key. None)(Sync := Some ''./sync.csv'')"
  by (rule ext)
     (simp add: find_files_def sort_reverse_def candidates_eq category_of_examples
        path_join_examples)

lemma listing_ticks_markers:
  "find_files ''.'' [(''ticks.csv'', 1), (''markers.csv'', 2)]
     = (\<lambda>key. None)(Ticks := Some ''./ticks.csv'', Markers := Some ''./markers.csv'')"
  by (rule ext)
     (simp add: find_files_def sort_reverse_def candidates_eq category_of_examples
        path_join_examples)

subsection \<open>Facts about the Tick Analyzer and the Channel Analyzer\<close>

lemma valid_intervals_acc:
  "valid_intervals flt ticks acc
     = acc @ filter (\<lambda>x. 500 < x \<and> x < 10000) (parsed_intervals flt ticks)"
  by (induction ticks arbitrary: acc) (auto simp: parsed_intervals_def split: sum.splits)

text \<open>
  C9. The valid intervals are exactly the parsed interval values that lie in the open
  interval \<open>(500, 10000)\<close>, and the good intervals are exactly the valid intervals that lie
  in the closed interval \<open>[900, 1100]\<close> (which are the parsed values in that interval).
  The example after the theorem has one row for each of the boundary values: 500 and 10000
  are not valid, 900 and 1100 are good.
\<close>

theorem tick_interval_ranges:
  "valid_intervals flt ticks [] = filter (\<lambda>x. 500 < x \<and> x < 10000) (parsed_intervals flt ticks)
   \<and> good_intervals (valid_intervals flt ticks [])
       = filter (\<lambda>x. 900 \<le> x \<and> x \<le> 1100) (valid_intervals flt ticks [])
   \<and> good_intervals (valid_intervals flt ticks [])
       = filter (\<lambda>x. 900 \<le> x \<and> x \<le> 1100) (parsed_intervals flt ticks)"
proof -
  have v: "valid_intervals flt ticks []
             = filter (\<lambda>x. 500 < x \<and> x < 10000) (parsed_intervals flt ticks)"
    by (simp add: valid_intervals_acc)
  have g: "good_intervals (valid_intervals flt ticks [])
             = filter (\<lambda>x. 900 \<le> x \<and> x \<le> 1100) (valid_intervals flt ticks [])"
    by (simp add: good_intervals_def)
  have "filter (\<lambda>x. 900 \<le> x \<and> x \<le> 1100) (filter (\<lambda>x. 500 < x \<and> x < 10000) xs)
        = filter (\<lambda>x. 900 \<le> x \<and> x \<le> 1100) xs" for xs :: "real list"
    by (induction xs) auto
  with v g show ?thesis by simp
qed

lemma boundary_rows:
  "parsed_intervals float_of_digits
     [[''interval_ms'' \<mapsto> ''500''], [''interval_ms'' \<mapsto> ''10000''], [''interval_ms'' \<mapsto> ''900''],
      [''interval_ms'' \<mapsto> ''1100''], [''interval_ms'' \<mapsto> ''501''], [''interval_ms'' \<mapsto> ''abc'']]
   = [500, 10000, 900, 1100, 501]"
  by (simp add: parsed_intervals_def float_col_def col_def and_then_def to_float_def
        float_of_digits_def digit_of_def)

theorem tick_interval_ranges_witness:
  "valid_intervals float_of_digits
     [[''interval_ms'' \<mapsto> ''500''], [''interval_ms'' \<mapsto> ''10000''], [''interval_ms'' \<mapsto> ''900''],
      [''interval_ms'' \<mapsto> ''1100''], [''interval_ms'' \<mapsto> ''501''], [''interval_ms'' \<mapsto> ''abc'']] []
   = [900, 1100, 501]
   \<and> good_intervals (valid_intervals float_of_digits
     [[''interval_ms'' \<mapsto> ''500''], [''interval_ms'' \<mapsto> ''10000''], [''interval_ms'' \<mapsto> ''900''],
      [''interval_ms'' \<mapsto> ''1100''], [''interval_ms'' \<mapsto> ''501''], [''interval_ms'' \<mapsto> ''abc'']] [])
   = [900, 1100]"
  using tick_interval_ranges [of float_of_digits
     "[[''interval_ms'' \<mapsto> ''500''], [''interval_ms'' \<mapsto> ''10000''], [''interval_ms'' \<mapsto> ''900''],
      [''interval_ms'' \<mapsto> ''1100''], [''interval_ms'' \<mapsto> ''501''], [''interval_ms'' \<mapsto> ''abc'']]"]
  unfolding boundary_rows by (simp add: good_intervals_def del: valid_intervals.simps)

lemma valid_intervals_filter:
  "valid_intervals flt (filter (\<lambda>t. \<not> isl (float_col flt t ''interval_ms'')) ticks) acc
     = valid_intervals flt ticks acc"
  by (induction ticks arbitrary: acc) (auto split: sum.splits)




lemma parse_header_without [simp]:
  "parse_header (without_unparsable flt k file) = parse_header file"
  by (simp add: parse_header_def without_unparsable_def)

lemma dict_rows_without [simp]:
  "dict_rows (without_unparsable flt k file)
     = filter (\<lambda>r. \<not> isl (float_col flt r k)) (dict_rows file)"
  by (simp add: without_unparsable_def)












text \<open>
  C1. The code at a tick log with one tick row, one \<^verbatim>\<open>META\<close> row and one \<^verbatim>\<open>GAIN\<close> row:
  the \<^verbatim>\<open>GAIN\<close> row is ignored, but the \<^verbatim>\<open>META\<close> row starts with \<^verbatim>\<open>M\<close>, so the first test
  of line 77 takes it for a minute-marker: it is counted in \<^verbatim>\<open>marker_count\<close> and enters the
  marker list.
\<close>

theorem analyze_ticks_counts_META_row:
  "analyze_ticks float_of_digits
     [''./ticks.csv'' \<mapsto>
        \<lparr>text_lines = [''tick_num,interval_ms,timestamp_ms,duration_ms\<newline>'',
                        ''1,1000,1000,5\<newline>'', ''META,0,0,0\<newline>'', ''GAIN,0,0,0\<newline>''],
         dict_rows =
           [[''tick_num'' \<mapsto> ''1'', ''interval_ms'' \<mapsto> ''1000'', ''timestamp_ms'' \<mapsto> ''1000'',
             ''duration_ms'' \<mapsto> ''5''],
            [''tick_num'' \<mapsto> ''META'', ''interval_ms'' \<mapsto> ''0'', ''timestamp_ms'' \<mapsto> ''0'',
             ''duration_ms'' \<mapsto> ''0''],
            [''tick_num'' \<mapsto> ''GAIN'', ''interval_ms'' \<mapsto> ''0'', ''timestamp_ms'' \<mapsto> ''0'',
             ''duration_ms'' \<mapsto> ''0'']]\<rparr>]
     ''./ticks.csv''
   = Inr (Some \<lparr>tick_info = \<lparr>version = ''unknown'', started = ''unknown''\<rparr>,
                 tick_count = 1, marker_count = 1,
                 good_interval_pct = Some 100, mean_interval_ms = Some 1000,
                 tick_markers = [(''META'', 0, 0)]\<rparr>)"
  by (simp add: analyze_ticks_def parse_header_def row_simps good_intervals_def)

subsection \<open>Facts about the report\<close>

text \<open>
  C2. The code at a directory whose sync log has a header row and no data row: the early
  return of \<^verbatim>\<open>analyze_sync\<close> leaves out the key \<^verbatim>\<open>first_locked\<close>, which line 228 reads, so
  the run ends with an uncaught \<^verbatim>\<open>KeyError\<close> after the first lines of the sync section, and
  the exit status is 1. And at a sync log with one row whose \<^verbatim>\<open>interval_sec\<close> is not numeric:
  line 51 raises \<^verbatim>\<open>ValueError\<close>, which nothing catches.
\<close>

theorem print_report_empty_sync_log_raises:
  "print_report float_of_digits example_absdiff ''.'' [(''sync.csv'', 1)]
     [''./sync.csv'' \<mapsto> \<lparr>text_lines = [''state,interval_sec,delta_ms\<newline>''], dict_rows = []\<rparr>]
   = ([Rule, Title, Rule, SyncHeading ''unknown'', SyncStarted ''unknown'', SyncConfirmed 0,
       SyncStates []], Inl (KeyError ''first_locked''))
   \<and> exit_status (print_report float_of_digits example_absdiff ''.'' [(''sync.csv'', 1)]
     [''./sync.csv'' \<mapsto> \<lparr>text_lines = [''state,interval_sec,delta_ms\<newline>''], dict_rows = []\<rparr>]) = 1
   \<and> print_report float_of_digits example_absdiff ''.'' [(''sync.csv'', 1)]
     [''./sync.csv'' \<mapsto> \<lparr>text_lines = [''state,interval_sec,delta_ms\<newline>'', ''LOCKED,abc,0\<newline>''],
         dict_rows = [[''state'' \<mapsto> ''LOCKED'', ''interval_sec'' \<mapsto> ''abc'', ''delta_ms'' \<mapsto> ''0'']]\<rparr>]
   = ([Rule, Title, Rule], Inl (ValueError ''abc''))"
  by (simp add: report_simps listing_sync analyze_sync_def parse_header_def row_simps
        print_sync_def exit_status_def)

text \<open>
  C4. The code at a directory with a tick log that has one marker row and no tick row, and
  a marker log with one marker: the early return of \<^verbatim>\<open>analyze_ticks\<close> reports
  \<^verbatim>\<open>marker_count\<close> 1 with an empty \<^verbatim>\<open>markers\<close> list and without the key
  \<^verbatim>\<open>good_interval_pct\<close>, and the run ends with an uncaught \<^verbatim>\<open>KeyError\<close> in the tick
  section: no correlation section is printed.
\<close>

theorem print_report_markers_without_ticks:
  "print_report float_of_digits example_absdiff ''.'' [(''ticks.csv'', 1), (''markers.csv'', 2)]
     [''./ticks.csv'' \<mapsto>
        \<lparr>text_lines = [''tick_num,interval_ms,timestamp_ms,duration_ms\<newline>'', ''M1,0,1000,5\<newline>''],
         dict_rows = [[''tick_num'' \<mapsto> ''M1'', ''interval_ms'' \<mapsto> ''0'',
                       ''timestamp_ms'' \<mapsto> ''1000'', ''duration_ms'' \<mapsto> ''5'']]\<rparr>,
      ''./markers.csv'' \<mapsto>
        \<lparr>text_lines = [''marker_num,timestamp_ms,duration_ms\<newline>'', ''M1,1000,5\<newline>''],
         dict_rows = [[''marker_num'' \<mapsto> ''M1'', ''timestamp_ms'' \<mapsto> ''1000'',
                       ''duration_ms'' \<mapsto> ''5'']]\<rparr>]
   = ([Rule, Title, Rule, TickHeading, TicksDetected 0, TickMinuteMarkers 1],
      Inl (KeyError ''good_interval_pct''))
   \<and> analyze_ticks float_of_digits
     [''./ticks.csv'' \<mapsto>
        \<lparr>text_lines = [''tick_num,interval_ms,timestamp_ms,duration_ms\<newline>'', ''M1,0,1000,5\<newline>''],
         dict_rows = [[''tick_num'' \<mapsto> ''M1'', ''interval_ms'' \<mapsto> ''0'',
                       ''timestamp_ms'' \<mapsto> ''1000'', ''duration_ms'' \<mapsto> ''5'']]\<rparr>] ''./ticks.csv''
   = Inr (Some \<lparr>tick_info = \<lparr>version = ''unknown'', started = ''unknown''\<rparr>,
                 tick_count = 0, marker_count = 1,
                 good_interval_pct = None, mean_interval_ms = None,
                 tick_markers = []\<rparr>)"
  by (simp add: report_simps listing_ticks_markers analyze_ticks_def parse_header_def row_simps
        print_ticks_def)

lemma bump_keys:
  "map fst (bump d k) = (if k \<in> set (map fst d) then map fst d else map fst d @ [k])"
  by (induction d) (auto simp: rev_image_eqI)

lemma bump_total_keys:
  "map fst (bump_total d k) = (if k \<in> set (map fst d) then map fst d else map fst d @ [k])"
  by (induction d) (auto simp: rev_image_eqI)

lemma bump_match_keys:
  "map fst (bump_match d k) = (if k \<in> set (map fst d) then map fst d else map fst d @ [k])"
  by (induction d) (auto simp: rev_image_eqI)

lemma count_states_keys:
  "count_states rows d = Inr states \<Longrightarrow>
     map fst states = first_seen (map fst d) (List.map_filter (\<lambda>r. r ''state'') rows)"
proof (induction rows arbitrary: d)
  case Nil
  then show ?case by simp
next
  case (Cons r rows)
  then show ?case
    by (auto simp: col_def bump_keys split: option.splits)
qed

lemma channel_rows_keys:
  "map fst (fst (channel_rows flt rows (d, v)))
     = first_seen (map fst d) (List.map_filter (\<lambda>r. r ''quality'') rows)"
proof (induction rows arbitrary: d v)
  case Nil
  then show ?case by simp
next
  case (Cons r rows)
  then show ?case
    by (auto simp: col_def bump_keys split: option.splits sum.splits)
qed

lemma count_matches_keys:
  "count_matches rows (t, m, d) = Inr (t', m', d') \<Longrightarrow>
     map fst d' = first_seen (map fst d) (List.map_filter (\<lambda>r. r ''expected'') rows)"
proof (induction rows arbitrary: t m d)
  case Nil
  then show ?case by simp
next
  case (Cons r rows)
  then show ?case
    by (auto simp: col_def and_then_def bump_total_keys bump_match_keys
          split: option.splits if_splits)
qed

text \<open>
  C10. The report is a function of the directory snapshot. The order in which the
  directory is listed, the one input that the operating system chooses, has no influence:
  two listings of the same entries give the same report (the lines printed and the way the
  run ends). The labels of the three aggregations (sync states, channel quality,
  subcarrier buckets) are in the order of their first occurrence in the rows. The text of
  a report line is a function of the values that the line carries.
\<close>

theorem report_independent_of_listing_order:
  "(mset listing' = mset listing \<longrightarrow>
      print_report flt adiff base listing' fs = print_report flt adiff base listing fs)
   \<and> (count_states sync_rows [] = Inr states \<longrightarrow>
        map fst states = first_seen [] (List.map_filter (\<lambda>r. r ''state'') sync_rows))
   \<and> map fst (fst (channel_rows flt chan_rows ([], [])))
       = first_seen [] (List.map_filter (\<lambda>r. r ''quality'') chan_rows)
   \<and> (count_matches sub_rows (0, 0, []) = Inr (n, m, by_exp) \<longrightarrow>
        map fst by_exp = first_seen [] (List.map_filter (\<lambda>r. r ''expected'') sub_rows))"
proof -
  have a: "print_report flt adiff base listing' fs = print_report flt adiff base listing fs"
    if "mset listing' = mset listing"
    using find_files_perm [OF that, of base] by (simp add: print_report_def)
  have b: "map fst states = first_seen [] (List.map_filter (\<lambda>r. r ''state'') sync_rows)"
    if "count_states sync_rows [] = Inr states"
    using count_states_keys [OF that] by simp
  have c: "map fst (fst (channel_rows flt chan_rows ([], [])))
       = first_seen [] (List.map_filter (\<lambda>r. r ''quality'') chan_rows)"
    using channel_rows_keys [of flt chan_rows "[]" "[]"] by simp
  have d: "map fst by_exp = first_seen [] (List.map_filter (\<lambda>r. r ''expected'') sub_rows)"
    if "count_matches sub_rows (0, 0, []) = Inr (n, m, by_exp)"
    using count_matches_keys [OF that] by simp
  from a b c d show ?thesis by blast
qed

lemma three_states:
  "count_states [[''state'' \<mapsto> ''SEARCHING''], [''state'' \<mapsto> ''LOCKED''], [''state'' \<mapsto> ''SEARCHING'']] []
     = Inr [(''SEARCHING'', 2), (''LOCKED'', 1)]"
  by (simp add: col_def)

lemma three_expected:
  "count_matches [[''expected'' \<mapsto> ''ON'', ''match'' \<mapsto> ''YES''],
                  [''expected'' \<mapsto> ''OFF'', ''match'' \<mapsto> ''NO''],
                  [''expected'' \<mapsto> ''ON'', ''match'' \<mapsto> ''NO'']] (0, 0, [])
     = Inr (3, 1, [(''ON'', 2, 1), (''OFF'', 1, 0)])"
  by (simp add: col_def and_then_def)

theorem report_independent_of_listing_order_witness:
  "mset [(''markers.csv'', 2), (''ticks.csv'', 1)] = mset [(''ticks.csv'', 1::real), (''markers.csv'', 2)]
   \<and> print_report float_of_digits example_absdiff ''.'' [(''markers.csv'', 2), (''ticks.csv'', 1)]
       [''./ticks.csv'' \<mapsto>
          \<lparr>text_lines = [''tick_num,interval_ms,timestamp_ms,duration_ms\<newline>'',
                          ''1,1000,1000,5\<newline>''],
           dict_rows = [[''tick_num'' \<mapsto> ''1'', ''interval_ms'' \<mapsto> ''1000'',
                         ''timestamp_ms'' \<mapsto> ''1000'', ''duration_ms'' \<mapsto> ''5'']]\<rparr>,
        ''./markers.csv'' \<mapsto>
          \<lparr>text_lines = [''marker_num,timestamp_ms,duration_ms\<newline>'', ''M1,1000,5\<newline>''],
           dict_rows = [[''marker_num'' \<mapsto> ''M1'', ''timestamp_ms'' \<mapsto> ''1000'',
                         ''duration_ms'' \<mapsto> ''5'']]\<rparr>]
       = print_report float_of_digits example_absdiff ''.'' [(''ticks.csv'', 1), (''markers.csv'', 2)]
       [''./ticks.csv'' \<mapsto>
          \<lparr>text_lines = [''tick_num,interval_ms,timestamp_ms,duration_ms\<newline>'',
                          ''1,1000,1000,5\<newline>''],
           dict_rows = [[''tick_num'' \<mapsto> ''1'', ''interval_ms'' \<mapsto> ''1000'',
                         ''timestamp_ms'' \<mapsto> ''1000'', ''duration_ms'' \<mapsto> ''5'']]\<rparr>,
        ''./markers.csv'' \<mapsto>
          \<lparr>text_lines = [''marker_num,timestamp_ms,duration_ms\<newline>'', ''M1,1000,5\<newline>''],
           dict_rows = [[''marker_num'' \<mapsto> ''M1'', ''timestamp_ms'' \<mapsto> ''1000'',
                         ''duration_ms'' \<mapsto> ''5'']]\<rparr>]
   \<and> count_states [[''state'' \<mapsto> ''SEARCHING''], [''state'' \<mapsto> ''LOCKED''], [''state'' \<mapsto> ''SEARCHING'']] []
       = Inr [(''SEARCHING'', 2), (''LOCKED'', 1)]
   \<and> map fst [(''SEARCHING'', 2::nat), (''LOCKED'', 1)]
       = first_seen [] (List.map_filter (\<lambda>r. r ''state'')
           [[''state'' \<mapsto> ''SEARCHING''], [''state'' \<mapsto> ''LOCKED''], [''state'' \<mapsto> ''SEARCHING'']])
   \<and> count_matches [[''expected'' \<mapsto> ''ON'', ''match'' \<mapsto> ''YES''],
                  [''expected'' \<mapsto> ''OFF'', ''match'' \<mapsto> ''NO''],
                  [''expected'' \<mapsto> ''ON'', ''match'' \<mapsto> ''NO'']] (0, 0, [])
       = Inr (3, 1, [(''ON'', 2, 1), (''OFF'', 1, 0)])
   \<and> map fst [(''ON'', 2::nat, 1::nat), (''OFF'', 1, 0)]
       = first_seen [] (List.map_filter (\<lambda>r. r ''expected'')
           [[''expected'' \<mapsto> ''ON'', ''match'' \<mapsto> ''YES''],
            [''expected'' \<mapsto> ''OFF'', ''match'' \<mapsto> ''NO''],
            [''expected'' \<mapsto> ''ON'', ''match'' \<mapsto> ''NO'']])"
proof -
  have p: "mset [(''markers.csv'', 2), (''ticks.csv'', 1)]
             = mset [(''ticks.csv'', 1::real), (''markers.csv'', 2)]"
    by simp
  note t = report_independent_of_listing_order
    [where listing' = "[(''markers.csv'', 2), (''ticks.csv'', 1)]"
       and listing = "[(''ticks.csv'', 1), (''markers.csv'', 2)]"
       and flt = float_of_digits and adiff = example_absdiff and base = "''.''"
       and fs = "[''./ticks.csv'' \<mapsto>
          \<lparr>text_lines = [''tick_num,interval_ms,timestamp_ms,duration_ms\<newline>'',
                          ''1,1000,1000,5\<newline>''],
           dict_rows = [[''tick_num'' \<mapsto> ''1'', ''interval_ms'' \<mapsto> ''1000'',
                         ''timestamp_ms'' \<mapsto> ''1000'', ''duration_ms'' \<mapsto> ''5'']]\<rparr>,
        ''./markers.csv'' \<mapsto>
          \<lparr>text_lines = [''marker_num,timestamp_ms,duration_ms\<newline>'', ''M1,1000,5\<newline>''],
           dict_rows = [[''marker_num'' \<mapsto> ''M1'', ''timestamp_ms'' \<mapsto> ''1000'',
                         ''duration_ms'' \<mapsto> ''5'']]\<rparr>]"
       and sync_rows = "[[''state'' \<mapsto> ''SEARCHING''], [''state'' \<mapsto> ''LOCKED''],
                         [''state'' \<mapsto> ''SEARCHING'']]"
       and states = "[(''SEARCHING'', 2), (''LOCKED'', 1)]"
       and sub_rows = "[[''expected'' \<mapsto> ''ON'', ''match'' \<mapsto> ''YES''],
                        [''expected'' \<mapsto> ''OFF'', ''match'' \<mapsto> ''NO''],
                        [''expected'' \<mapsto> ''ON'', ''match'' \<mapsto> ''NO'']]"
       and n = 3 and m = 1 and by_exp = "[(''ON'', 2, 1), (''OFF'', 1, 0)]"]
  from t p three_states three_expected show ?thesis by blast
qed

end
